theory Spec2Isabelle
  imports Main "HOL-Library.Word"
begin

section \<open>Data model of \<^verbatim>\<open>controllers/node.go\<close>\<close>

text \<open>
  The controller works on values of the packages \<^verbatim>\<open>models\<close>, \<^verbatim>\<open>logic\<close>,
  \<^verbatim>\<open>functions\<close>, \<^verbatim>\<open>mq\<close> and \<^verbatim>\<open>servercfg\<close>. The structs are records holding the
  fields that \<^verbatim>\<open>node.go\<close> reads or writes. A Go \<^verbatim>\<open>error\<close> is its message;
  \<^verbatim>\<open>nil\<close> is \<open>None\<close>. A function with several results returns a tuple, the error last,
  as in Go. The flags of a node are the strings \<^verbatim>\<open>"yes"\<close> and \<^verbatim>\<open>"no"\<close>, as in the source.
\<close>

type_synonym error = string
type_synonym byte = "8 word"

record ErrorResponse =
  Code :: nat
  Message :: string

record AccessKey =
  Value :: string

record Network =
  AccessKeys :: "AccessKey list"
  AllowManualSignUp :: string
  NodesLastModified :: int

record TrafficKeys =
  Mine :: "byte list option"
  Server :: "byte list option"

record Node =
  ID :: string
  Name :: string
  Network :: string
  Password :: string
  AccessKey :: string
  Address :: string
  Address6 :: string
  IsServer :: string
  IsPending :: string
  IsRelay :: string
  IsRelayed :: string
  RelayAddrs :: "string list"
  PostUp :: string
  PostDown :: string
  Action :: string
  TrafficKeys :: TrafficKeys
  NetworkSettings :: Network

record User =
  UserName :: string
  Networks :: "string list"
  IsAdmin :: bool

text \<open>
  A request: its headers, the path variables that \<^verbatim>\<open>mux.Vars\<close> returns, and its body.
  Reading a Go map at a missing key and \<^verbatim>\<open>Header.Get\<close> of a missing header give the
  empty string.
\<close>

record Request =
  Header :: "string \<rightharpoonup> string"
  Vars :: "string \<rightharpoonup> string"
  Body :: string

definition Get :: "(string \<rightharpoonup> string) \<Rightarrow> string \<Rightarrow> string" where
  "Get h k = (case h k of None \<Rightarrow> [] | Some v \<Rightarrow> v)"

definition HeaderSet :: "Request \<Rightarrow> string \<Rightarrow> string \<Rightarrow> Request" where
  "HeaderSet r k v = r\<lparr>Header := (Header r)(k \<mapsto> v)\<rparr>"

record PeerUpdate =
  PeersOf :: "string list"

record NodeGet =
  NodeOf :: Node
  Peers :: "string list"
  ServerConfig :: string

datatype payload =
    Nodes "Node list"
  | ANode Node
  | ANodeGet NodeGet
  | AString string
  | ATime int

text \<open>
  The collaborators that are not in \<^verbatim>\<open>node.go\<close> are parameters: a record of functions
  from the arguments of a call to its results. The two collaborators that store a node
  through the pointer they get (\<^verbatim>\<open>logic.CreateNode\<close>, \<^verbatim>\<open>logic.UpdateNode\<close>) return
  the node as they leave it, with their error; the others are taken to read only.
  \<^verbatim>\<open>decodeNode\<close> is the JSON decoding of a request body into a node, \<^verbatim>\<open>formatError\<close>
  the function of that name of the package, which is in another file. \<^verbatim>\<open>go_reads\<close> is
  the scheduling of the goroutines that the relay loop of \<^verbatim>\<open>updateNode\<close> starts (see
  there).
\<close>

record env =
  functions_NetworkExists :: "string \<Rightarrow> bool \<times> error option"
  logic_VerifyToken :: "string \<Rightarrow> string \<times> string \<times> string \<times> error option"
  logic_VerifyUserToken :: "string \<Rightarrow> string \<times> string list \<times> bool \<times> error option"
  logic_GetNodeByID :: "string \<Rightarrow> Node \<times> error option"
  logic_GetUser :: "string \<Rightarrow> User \<times> error option"
  logic_GetAllNodes :: "Node list \<times> error option"
  logic_GetNetworkNodes :: "string \<Rightarrow> Node list \<times> error option"
  logic_GetNetworkByNode :: "Node \<Rightarrow> Network \<times> error option"
  logic_GetNetworkSettings :: "string \<Rightarrow> Network \<times> error option"
  logic_IsKeyValid :: "string \<Rightarrow> string \<Rightarrow> bool"
  logic_RetrievePublicTrafficKey :: "byte list option \<times> error option"
  logic_CreateNode :: "Node \<Rightarrow> Node \<times> error option"
  logic_GetPeerUpdate :: "Node \<Rightarrow> PeerUpdate \<times> error option"
  database_IsEmptyRecord :: "error \<Rightarrow> bool"
  servercfg_GetServerInfo :: string
  servercfg_GetRce :: bool
  servercfg_IsDNSMode :: bool
  servercfg_IsClientMode :: string
  logic_IfaceDelta :: "Node \<Rightarrow> Node \<Rightarrow> bool"
  logic_UpdateNode :: "Node \<Rightarrow> Node \<Rightarrow> Node \<times> Node \<times> error option"
  logic_UpdateRelay :: "string \<Rightarrow> string list \<Rightarrow> string list \<Rightarrow> Node list"
  logic_NetworkNodesUpdatePullChanges :: "string \<Rightarrow> error option"
  logic_FindRelay :: "Node \<Rightarrow> Node option"
  logic_DeleteNodeByID :: "Node \<Rightarrow> bool \<Rightarrow> error option"
  logic_GetNetworkServerLocal :: "string \<Rightarrow> Node \<times> error option"
  logic_GetNetworkServerLeader :: "string \<Rightarrow> Node \<times> error option"
  logic_IsLeader :: "Node \<Rightarrow> bool"
  logic_ServerUpdate :: "Node \<Rightarrow> bool \<Rightarrow> error option"
  mq_NodeUpdate :: "Node \<Rightarrow> error option"
  mq_PublishPeerUpdate :: "Node \<Rightarrow> error option"
  decodeNode :: "string \<Rightarrow> Node \<times> error option"
  formatError :: "error option \<Rightarrow> string \<Rightarrow> ErrorResponse"
  go_reads :: "nat \<Rightarrow> nat"

text \<open>
  What a handler does to the world, in the order of the source: the writes to the response,
  the call of the next handler, the calls of the collaborators that store or publish, and
  the goroutines it starts (\<open>Go\<close>, with what the goroutine does). A nil-pointer
  dereference is \<open>Panic\<close>. Calls of the logger are left out.
\<close>

datatype event =
    SetHeader string string
  | WriteHeader nat
  | Encode payload
  | ReturnErrorResponse ErrorResponse
  | ReturnSuccessResponse string
  | ServeHTTP Request
  | Call_CreateNode Node
  | Call_UpdateNode "Node option" "Node option"
  | Call_DeleteNodeByID Node bool
  | Call_UpdateRelay string "string list" "string list"
  | Call_NetworkNodesUpdatePullChanges string
  | Call_SetDNS
  | Call_NodeUpdate Node
  | Call_PublishPeerUpdate Node
  | Call_ServerUpdate Node bool
  | Go "event list"
  | Panic

abbreviation StatusOK :: nat where "StatusOK \<equiv> 200"
abbreviation StatusUnauthorized :: nat where "StatusUnauthorized \<equiv> 401"
abbreviation StatusNotFound :: nat where "StatusNotFound \<equiv> 404"

section \<open>The authorization middleware\<close>

text \<open>
  \<^verbatim>\<open>strings.Split(s, " ")\<close>: the pieces of \<open>s\<close> between the occurrences of the
  separator, one more than there are separators; the empty string gives one empty piece.
\<close>

fun Split :: "string \<Rightarrow> char \<Rightarrow> string list" where
  "Split [] sep = [[]]"
| "Split (c # cs) sep =
     (if c = sep then [] # Split cs sep
      else (case Split cs sep of [] \<Rightarrow> [[c]] | w # ws \<Rightarrow> (c # w) # ws))"

text \<open>
  Modelled from the spec: \<^verbatim>\<open>logic.StringSliceContains\<close> is not in \<^verbatim>\<open>node.go\<close>; the spec
  reads it as "user's network list contains path network".
\<close>

definition StringSliceContains :: "string list \<Rightarrow> string \<Rightarrow> bool" where
  "StringSliceContains xs x = (x \<in> set xs)"

text \<open>The end of \<^verbatim>\<open>authorize\<close>: reject, or set the \<^verbatim>\<open>user\<close> header and call the handler.\<close>

definition authorize_finish :: "bool \<Rightarrow> string \<Rightarrow> Request \<Rightarrow> event list" where
  "authorize_finish isAuthorized username r =
     (if \<not> isAuthorized then
        [ReturnErrorResponse \<lparr>Code = StatusUnauthorized,
           Message = ''W1R3: You are unauthorized to access this endpoint.''\<rparr>]
      else
        [ServeHTTP (HeaderSet r ''user''
           (if username = [] then ''(user not found)'' else username))])"

text \<open>
  The \<^verbatim>\<open>switch authNetwork\<close> of \<^verbatim>\<open>authorize\<close>, reached when \<open>nodeID\<close> is not
  \<^verbatim>\<open>"mastermac"\<close>. The case \<^verbatim>\<open>"node"\<close> compares \<open>nodeID\<close> with the path variable
  \<^verbatim>\<open>netid\<close>, as the source does.
\<close>

definition authorize_switch ::
  "env \<Rightarrow> string \<Rightarrow> string \<Rightarrow> bool \<Rightarrow> string \<Rightarrow> Request \<Rightarrow> event list" where
  "authorize_switch e authNetwork nodeID isnetadmin username r =
     (if authNetwork = ''all'' then authorize_finish True username r
      else if authNetwork = ''nodes'' then
        authorize_finish (nodeID \<noteq> [] \<or> isnetadmin) username r
      else if authNetwork = ''network'' then
        (if isnetadmin then authorize_finish True username r
         else
           (case logic_GetNodeByID e nodeID of
              (node, err) \<Rightarrow>
                if err \<noteq> None then
                  [ReturnErrorResponse \<lparr>Code = StatusUnauthorized,
                     Message = ''W1R3: Missing Auth Token.''\<rparr>]
                else authorize_finish (Network node = Get (Vars r) ''network'') username r))
      else if authNetwork = ''node'' then
        (if isnetadmin then authorize_finish True username r
         else authorize_finish (nodeID = Get (Vars r) ''netid'') username r)
      else if authNetwork = ''user'' then authorize_finish True username r
      else authorize_finish False username r)"

text \<open>
  \<^verbatim>\<open>authorize(nodesAllowed, networkCheck, authNetwork, next)\<close> applied to a request.
  The source sets \<open>nodeID\<close> only in the admin branch, to \<^verbatim>\<open>"mastermac"\<close>.
\<close>

definition authorize :: "env \<Rightarrow> bool \<Rightarrow> bool \<Rightarrow> string \<Rightarrow> Request \<Rightarrow> event list" where
  "authorize e nodesAllowed networkCheck authNetwork r =
     (case functions_NetworkExists e (Get (Vars r) ''network'') of
        (networkexists, _) \<Rightarrow>
          if networkCheck \<and> \<not> networkexists then
            [ReturnErrorResponse \<lparr>Code = StatusNotFound,
               Message = ''W1R3: This network does not exist. ''\<rparr>]
          else
            SetHeader ''Content-Type'' ''application/json'' #
            (let tokenSplit = Split (Get (Header r) ''Authorization'') CHR '' '' in
             if \<not> 1 < length tokenSplit then
               [ReturnErrorResponse \<lparr>Code = StatusUnauthorized,
                  Message = ''W1R3: Missing Auth Token.''\<rparr>]
             else
               let authToken = tokenSplit ! 1 in
               if nodesAllowed \<and> snd (snd (snd (logic_VerifyToken e authToken))) = None then
                 [ServeHTTP r]
               else
                 (case logic_VerifyUserToken e authToken of
                    (username, networks, isadmin, errN) \<Rightarrow>
                      if errN \<noteq> None then
                        [ReturnErrorResponse \<lparr>Code = StatusUnauthorized,
                           Message = ''W1R3: Unauthorized, Invalid Token Processed.''\<rparr>]
                      else
                        let master = (errN = None \<and> isadmin);
                            nodeID = (if master then ''mastermac'' else []);
                            r1 = (if master then HeaderSet r ''ismasterkey'' ''yes'' else r);
                            isnetadmin =
                              (if \<not> isadmin \<and> Get (Vars r) ''network'' \<noteq> [] \<and>
                                  StringSliceContains networks (Get (Vars r) ''network'')
                               then True else isadmin)
                        in
                          if nodeID = ''mastermac'' then
                            authorize_finish True username (HeaderSet r1 ''ismasterkey'' ''yes'')
                          else authorize_switch e authNetwork nodeID isnetadmin username r1)))"

section \<open>Listing nodes\<close>

text \<open>
  The loop of \<^verbatim>\<open>getUsersNodes\<close>. The \<^verbatim>\<open>err\<close> assigned in the loop body is a new
  variable of the body (\<^verbatim>\<open>:=\<close>); the \<^verbatim>\<open>err\<close> that is returned is the one declared
  before the loop, which nothing assigns.
\<close>

fun getUsersNodes_loop :: "env \<Rightarrow> string list \<Rightarrow> Node list \<Rightarrow> Node list" where
  "getUsersNodes_loop e [] nodes = nodes"
| "getUsersNodes_loop e (networkName # rest) nodes =
     (case logic_GetNetworkNodes e networkName of
        (tmpNodes, err) \<Rightarrow>
          if err \<noteq> None then getUsersNodes_loop e rest nodes
          else getUsersNodes_loop e rest (nodes @ tmpNodes))"

definition getUsersNodes :: "env \<Rightarrow> User \<Rightarrow> Node list \<times> error option" where
  "getUsersNodes e user =
     (let err = None; nodes = getUsersNodes_loop e (Networks user) []
      in (nodes, err))"

definition getAllNodes :: "env \<Rightarrow> Request \<Rightarrow> event list" where
  "getAllNodes e r =
     SetHeader ''Content-Type'' ''application/json'' #
     (case logic_GetUser e (Get (Header r) ''user'') of
        (user, err) \<Rightarrow>
          if err \<noteq> None \<and> Get (Header r) ''ismasterkey'' \<noteq> ''yes'' then
            [ReturnErrorResponse (formatError e err ''internal'')]
          else if IsAdmin user \<or> Get (Header r) ''ismasterkey'' = ''yes'' then
            (case logic_GetAllNodes e of
               (nodes, err) \<Rightarrow>
                 if err \<noteq> None then [ReturnErrorResponse (formatError e err ''internal'')]
                 else [WriteHeader StatusOK, Encode (Nodes nodes)])
          else
            (case getUsersNodes e user of
               (nodes, err) \<Rightarrow>
                 if err \<noteq> None then [ReturnErrorResponse (formatError e err ''internal'')]
                 else [WriteHeader StatusOK, Encode (Nodes nodes)]))"

section \<open>Propagation\<close>

definition isServer :: "Node \<Rightarrow> bool" where
  "isServer node = (IsServer node = ''yes'')"

text \<open>\<^verbatim>\<open>runServerUpdate\<close>: what it does, and the error it returns.\<close>

definition runServerUpdate :: "env \<Rightarrow> Node \<Rightarrow> bool \<Rightarrow> event list \<times> error option" where
  "runServerUpdate e node ifaceDelta =
     (if servercfg_IsClientMode e \<noteq> ''on'' \<or> \<not> isServer node then ([], None)
      else
        (case logic_GetNetworkServerLocal e (Network node) of
           (currentServerNode, err) \<Rightarrow>
             if err \<noteq> None then ([], err)
             else
               let published =
                     (if ifaceDelta \<and> logic_IsLeader e currentServerNode
                      then [Call_PublishPeerUpdate currentServerNode] else [])
               in (published @ [Call_ServerUpdate currentServerNode ifaceDelta],
                   logic_ServerUpdate e currentServerNode ifaceDelta)))"

definition runUpdates :: "env \<Rightarrow> Node \<Rightarrow> bool \<Rightarrow> event list" where
  "runUpdates e node ifaceDelta =
     [Go (Call_NodeUpdate node # fst (runServerUpdate e node ifaceDelta))]"

text \<open>
  \<^verbatim>\<open>runForceServerUpdate\<close>: the goroutine publishes the peer update of the node, then
  looks the leader of the node's network up and, when the lookup gives no error, updates
  that server with \<^verbatim>\<open>ifaceDelta = false\<close>. The errors of the two calls are only logged.
\<close>

definition runForceServerUpdate :: "env \<Rightarrow> Node \<Rightarrow> event list" where
  "runForceServerUpdate e node =
     [Go (Call_PublishPeerUpdate node #
          (case logic_GetNetworkServerLeader e (Network node) of
             (currentServerNode, getErr) \<Rightarrow>
               if getErr = None then [Call_ServerUpdate currentServerNode False] else []))]"

section \<open>Registration\<close>

text \<open>
  \<^verbatim>\<open>createNode\<close>. The three failures around the traffic keys pass \<^verbatim>\<open>err\<close> to
  \<^verbatim>\<open>formatError\<close>: the variable last assigned by \<^verbatim>\<open>logic.GetNetworkSettings\<close>, which
  is nil there.
\<close>

definition createNode :: "env \<Rightarrow> Request \<Rightarrow> event list" where
  "createNode e r =
     SetHeader ''Content-Type'' ''application/json'' #
     (let networkName = Get (Vars r) ''network'' in
      case functions_NetworkExists e networkName of
        (networkexists, err) \<Rightarrow>
      if err \<noteq> None then [ReturnErrorResponse (formatError e err ''internal'')]
      else if \<not> networkexists then
        [ReturnErrorResponse \<lparr>Code = StatusNotFound, Message = ''W1R3: Network does not exist! ''\<rparr>]
      else
      case decodeNode e (Body r) of
        (decoded, err) \<Rightarrow>
      if err \<noteq> None then [ReturnErrorResponse (formatError e err ''internal'')]
      else
      let node = decoded\<lparr>Network := networkName\<rparr> in
      case logic_GetNetworkByNode e node of
        (network, err) \<Rightarrow>
      if err \<noteq> None then [ReturnErrorResponse (formatError e err ''internal'')]
      else
      case logic_GetNetworkSettings e (Network node) of
        (settings, err) \<Rightarrow>
      let node = node\<lparr>NetworkSettings := settings\<rparr> in
      if err \<noteq> None then [ReturnErrorResponse (formatError e err ''internal'')]
      else
      let validKey = logic_IsKeyValid e networkName (AccessKey node) in
      if \<not> validKey \<and> AllowManualSignUp network \<noteq> ''yes'' then
        [ReturnErrorResponse \<lparr>Code = StatusUnauthorized,
           Message = ''W1R3: Key invalid, or none provided.''\<rparr>]
      else
      let node = (if \<not> validKey then node\<lparr>IsPending := ''yes''\<rparr> else node) in
      case logic_RetrievePublicTrafficKey e of
        (key, keyErr) \<Rightarrow>
      if keyErr \<noteq> None then [ReturnErrorResponse (formatError e err ''internal'')]
      else if key = None then [ReturnErrorResponse (formatError e err ''internal'')]
      else if Mine (TrafficKeys node) = None then
        [ReturnErrorResponse (formatError e err ''internal'')]
      else
      let node = node\<lparr>TrafficKeys := \<lparr>Mine = Mine (TrafficKeys node), Server = key\<rparr>\<rparr> in
      Call_CreateNode node #
      (case logic_CreateNode e node of
         (node, err) \<Rightarrow>
       if err \<noteq> None then [ReturnErrorResponse (formatError e err ''internal'')]
       else
       case logic_GetPeerUpdate e node of
         (peerUpdate, err) \<Rightarrow>
       if err \<noteq> None \<and> \<not> database_IsEmptyRecord e (the err) then
         [ReturnErrorResponse (formatError e err ''internal'')]
       else
         [WriteHeader StatusOK,
          Encode (ANodeGet \<lparr>NodeOf = node, Peers = PeersOf peerUpdate,
                    ServerConfig = servercfg_GetServerInfo e\<rparr>)]
         @ runForceServerUpdate e node))"

text \<open>The nodes that a trace hands to \<^verbatim>\<open>logic.CreateNode\<close>.\<close>

fun created :: "event list \<Rightarrow> Node list" where
  "created [] = []"
| "created (Call_CreateNode n # evs) = n # created evs"
| "created (ev # evs) = created evs"

section \<open>Deletion\<close>

text \<open>
  Modelled from the spec: the constant \<^verbatim>\<open>models.NODE_DELETE\<close> is not in \<^verbatim>\<open>node.go\<close>;
  the spec says the node's action is marked as "delete".
\<close>

definition NODE_DELETE :: string where
  "NODE_DELETE = ''delete''"

definition deleteNode :: "env \<Rightarrow> Request \<Rightarrow> event list" where
  "deleteNode e r =
     SetHeader ''Content-Type'' ''application/json'' #
     (let nodeid = Get (Vars r) ''nodeid'' in
      case logic_GetNodeByID e nodeid of
        (node, err) \<Rightarrow>
      if err \<noteq> None then [ReturnErrorResponse (formatError e err ''badrequest'')]
      else if isServer node then
        [ReturnErrorResponse (formatError e (Some ''cannot delete server node'') ''badrequest'')]
      else
      let node = node\<lparr>Action := NODE_DELETE\<rparr> in
      Call_DeleteNodeByID node False #
      (if logic_DeleteNodeByID e node False \<noteq> None then
         [ReturnErrorResponse (formatError e (logic_DeleteNodeByID e node False) ''internal'')]
       else
         ReturnSuccessResponse (nodeid @ '' deleted.'')
         # runUpdates e node False @ runForceServerUpdate e node))"

text \<open>The calls of \<^verbatim>\<open>logic.DeleteNodeByID\<close> in a trace.\<close>

fun deleted :: "event list \<Rightarrow> Node list" where
  "deleted [] = []"
| "deleted (Call_DeleteNodeByID n f # evs) = n # deleted evs"
| "deleted (ev # evs) = deleted evs"

section \<open>Go slices\<close>

text \<open>
  \<^verbatim>\<open>updateRelay\<close> edits a slice while it ranges over it, so the slice is modelled as Go
  has it: a header (array, offset, length, capacity) over an array of the heap. The heap
  is the list of the allocated arrays. Slicing beyond the bounds panics (\<open>None\<close>).
\<close>

record slice =
  s_arr :: nat
  s_off :: nat
  s_len :: nat
  s_cap :: nat

type_synonym heap = "string list list"

definition elems :: "heap \<Rightarrow> slice \<Rightarrow> string list" where
  "elems h s = take (s_len s) (drop (s_off s) (h ! s_arr s))"

text \<open>\<^verbatim>\<open>s[:j]\<close>: the upper bound of a slice expression on a slice is its capacity.\<close>

definition slice_to :: "slice \<Rightarrow> nat \<Rightarrow> slice option" where
  "slice_to s j = (if j \<le> s_cap s then Some (s\<lparr>s_len := j\<rparr>) else None)"

text \<open>\<^verbatim>\<open>s[i:]\<close>: the lower bound is at most the length.\<close>

definition slice_from :: "slice \<Rightarrow> nat \<Rightarrow> slice option" where
  "slice_from s i =
     (if i \<le> s_len s then
        Some \<lparr>s_arr = s_arr s, s_off = s_off s + i, s_len = s_len s - i, s_cap = s_cap s - i\<rparr>
      else None)"

definition write_at :: "string list \<Rightarrow> nat \<Rightarrow> string list \<Rightarrow> string list" where
  "write_at a k xs = take k a @ xs @ drop (k + length xs) a"

text \<open>
  \<^verbatim>\<open>append(s, xs...)\<close>: when the capacity suffices the values are written into the array
  of \<open>s\<close>, behind its length, and the result shares that array; otherwise a new array is
  allocated (here of twice the capacity, or of the length needed when that is more) and the
  values are copied. The values \<open>xs\<close> are read before anything is written.
\<close>

definition go_append :: "heap \<Rightarrow> slice \<Rightarrow> string list \<Rightarrow> heap \<times> slice" where
  "go_append h s xs =
     (if s_len s + length xs \<le> s_cap s then
        (h[s_arr s := write_at (h ! s_arr s) (s_off s + s_len s) xs],
         s\<lparr>s_len := s_len s + length xs\<rparr>)
      else
        let newcap = max (2 * s_cap s) (s_len s + length xs) in
        (h @ [elems h s @ xs @ replicate (newcap - (s_len s + length xs)) []],
         \<lparr>s_arr = length h, s_off = 0, s_len = s_len s + length xs, s_cap = newcap\<rparr>))"

definition wf_slice :: "heap \<Rightarrow> slice \<Rightarrow> bool" where
  "wf_slice h s =
     (s_arr s < length h \<and> s_len s \<le> s_cap s \<and> s_off s + s_cap s \<le> length (h ! s_arr s))"

section \<open>Relay repair\<close>

text \<open>
  The body of the \<^verbatim>\<open>if\<close> inside the loops of \<^verbatim>\<open>updateRelay\<close>, at index \<open>i\<close>:
  \<^verbatim>\<open>newrelay.RelayAddrs = append(newrelay.RelayAddrs[:i], relay.RelayAddrs[i+1:]...)\<close>, then
  \<^verbatim>\<open>newrelay.RelayAddrs = append(newrelay.RelayAddrs, new)\<close>. \<^verbatim>\<open>relay\<close> is a pointer
  (it is handed to \<^verbatim>\<open>logic.UpdateNode\<close>, which \<^verbatim>\<open>updateNode\<close> calls with
  \<^verbatim>\<open>&node\<close>), and \<^verbatim>\<open>newrelay := relay\<close> copies the pointer: both name one node, whose
  field \<^verbatim>\<open>RelayAddrs\<close> is the header \<open>cur\<close>.
\<close>

definition splice_step :: "string \<Rightarrow> nat \<Rightarrow> heap \<times> slice \<Rightarrow> (heap \<times> slice) option" where
  "splice_step new i st =
     (case st of (h, cur) \<Rightarrow>
        (case slice_to cur i of
           None \<Rightarrow> None
         | Some left \<Rightarrow>
             (case slice_from cur (Suc i) of
                None \<Rightarrow> None
              | Some right \<Rightarrow>
                  (case go_append h left (elems h right) of
                     (h1, s1) \<Rightarrow> Some (go_append h1 s1 [new])))))"

text \<open>
  \<^verbatim>\<open>for i, ip := range newrelay.RelayAddrs\<close>: the range expression is evaluated once,
  to the header \<open>rng\<close>; the indices are those below its length, and \<open>ip\<close> is read from
  its array when the iteration starts.
\<close>

fun range_loop ::
  "string \<Rightarrow> string \<Rightarrow> slice \<Rightarrow> nat list \<Rightarrow> heap \<times> slice \<Rightarrow> (heap \<times> slice) option" where
  "range_loop old new rng [] st = Some st"
| "range_loop old new rng (i # is) st =
     (if (fst st ! s_arr rng) ! (s_off rng + i) = old then
        (case splice_step new i st of
           None \<Rightarrow> None
         | Some st' \<Rightarrow> range_loop old new rng is st')
      else range_loop old new rng is st)"

definition splice_range :: "string \<Rightarrow> string \<Rightarrow> heap \<times> slice \<Rightarrow> (heap \<times> slice) option" where
  "splice_range old new st = range_loop old new (snd st) [0..<s_len (snd st)] st"

text \<open>
  The two loops of \<^verbatim>\<open>updateRelay\<close> on the relay's list. Both compare the entries with
  \<^verbatim>\<open>oldnode.Address\<close>; the second appends \<^verbatim>\<open>newnode.Address6\<close>.
\<close>

definition updateRelay_addrs :: "Node \<Rightarrow> Node \<Rightarrow> heap \<times> slice \<Rightarrow> (heap \<times> slice) option" where
  "updateRelay_addrs oldnode newnode st =
     (case (if Address oldnode \<noteq> Address newnode
            then splice_range (Address oldnode) (Address newnode) st else Some st) of
        None \<Rightarrow> None
      | Some st1 \<Rightarrow>
          if Address6 oldnode \<noteq> Address6 newnode
          then splice_range (Address oldnode) (Address6 newnode) st1 else Some st1)"

text \<open>
  \<^verbatim>\<open>updateRelay\<close>. The list of the relay that \<^verbatim>\<open>logic.FindRelay\<close> returns lies in an
  array of its own, filled to its capacity. A nil relay is dereferenced by the first loop
  that runs.
\<close>

definition updateRelay :: "env \<Rightarrow> Node \<Rightarrow> Node \<Rightarrow> event list" where
  "updateRelay e oldnode newnode =
     (case logic_FindRelay e oldnode of
        None \<Rightarrow>
          if Address oldnode \<noteq> Address newnode then [Panic]
          else if Address6 oldnode \<noteq> Address6 newnode then [Panic]
          else [Call_UpdateNode None None]
      | Some relay \<Rightarrow>
          let n = length (RelayAddrs relay) in
          (case updateRelay_addrs oldnode newnode
                  ([RelayAddrs relay], \<lparr>s_arr = 0, s_off = 0, s_len = n, s_cap = n\<rparr>) of
             None \<Rightarrow> [Panic]
           | Some (h, s) \<Rightarrow>
               let newrelay = relay\<lparr>RelayAddrs := elems h s\<rparr>
               in [Call_UpdateNode (Some newrelay) (Some newrelay)]))"

text \<open>
  The same repair on the list alone: at each index below the length, an entry equal to
  \<open>old\<close> is cut out and \<open>new\<close> is put at the end; the length stays.
\<close>

definition splice :: "nat \<Rightarrow> string \<Rightarrow> string list \<Rightarrow> string list" where
  "splice i new xs = take i xs @ drop (Suc i) xs @ [new]"

definition splice_at :: "string \<Rightarrow> string \<Rightarrow> nat \<Rightarrow> string list \<Rightarrow> string list" where
  "splice_at old new i xs = (if xs ! i = old then splice i new xs else xs)"

definition splice_list :: "string \<Rightarrow> string \<Rightarrow> string list \<Rightarrow> string list" where
  "splice_list old new xs = fold (splice_at old new) [0..<length xs] xs"

definition repair_list :: "Node \<Rightarrow> Node \<Rightarrow> string list \<Rightarrow> string list" where
  "repair_list oldnode newnode xs =
     (let ys = (if Address oldnode \<noteq> Address newnode
                then splice_list (Address oldnode) (Address newnode) xs else xs)
      in if Address6 oldnode \<noteq> Address6 newnode
         then splice_list (Address oldnode) (Address6 newnode) ys else ys)"

text \<open>No two neighbours of the list are both \<open>a\<close>.\<close>

fun no_adjacent :: "string \<Rightarrow> string list \<Rightarrow> bool" where
  "no_adjacent a (x # y # zs) = ((x \<noteq> a \<or> y \<noteq> a) \<and> no_adjacent a (y # zs))"
| "no_adjacent a zs = True"

section \<open>Update\<close>

text \<open>
  \<^verbatim>\<open>updateNode\<close>. \<^verbatim>\<open>logic.UpdateNode\<close> gets pointers to \<^verbatim>\<open>node\<close> and
  \<^verbatim>\<open>newNode\<close>; what follows the call works on the two nodes as it left them.
\<close>

text \<open>
  The loop \<^verbatim>\<open>for _, relayedNode := range updatenodes { runUpdates(&relayedNode, false) }\<close>
  hands every goroutine the address of the one loop variable. A goroutine reads the
  variable when it runs: during the iteration that started it, during a later one, or
  after the loop, when the variable holds the last node. The goroutine started in
  iteration \<open>k\<close> sees the node of iteration \<open>go_reads e k\<close>, kept between \<open>k\<close> and the
  last iteration; it is taken to read the variable at one moment.
\<close>

definition relay_updates :: "env \<Rightarrow> Node list \<Rightarrow> event list" where
  "relay_updates e updatenodes =
     concat (map (\<lambda>k. runUpdates e
                        (updatenodes ! min (max k (go_reads e k)) (length updatenodes - 1))
                        False)
               [0..<length updatenodes])"

definition relayupdate_of :: "Node \<Rightarrow> Node \<Rightarrow> bool" where
  "relayupdate_of node newNode =
     (if IsRelay node = ''yes'' \<and> 0 < length (RelayAddrs newNode) then
        (if length (RelayAddrs newNode) \<noteq> length (RelayAddrs node) then True
         else list_ex (\<lambda>i. RelayAddrs newNode ! i \<noteq> RelayAddrs node ! i)
                [0..<length (RelayAddrs newNode)])
      else False)"

definition relayedUpdate_of :: "Node \<Rightarrow> Node \<Rightarrow> bool" where
  "relayedUpdate_of node newNode =
     (IsRelayed node = ''yes'' \<and>
      (Address node \<noteq> Address newNode \<or> Address6 node \<noteq> Address6 newNode))"

definition updateNode :: "env \<Rightarrow> Request \<Rightarrow> event list" where
  "updateNode e r =
     SetHeader ''Content-Type'' ''application/json'' #
     (case logic_GetNodeByID e (Get (Vars r) ''nodeid'') of
        (node, err) \<Rightarrow>
      if err \<noteq> None then [ReturnErrorResponse (formatError e err ''internal'')]
      else
      case decodeNode e (Body r) of
        (newNode, err) \<Rightarrow>
      if err \<noteq> None then [ReturnErrorResponse (formatError e err ''badrequest'')]
      else
      let relayupdate = relayupdate_of node newNode;
          relayedUpdate = relayedUpdate_of node newNode;
          newNode = (if \<not> servercfg_GetRce e
                     then newNode\<lparr>PostDown := PostDown node, PostUp := PostUp node\<rparr>
                     else newNode);
          ifaceDelta = logic_IfaceDelta e node newNode
      in
      Call_UpdateNode (Some node) (Some newNode) #
      (case logic_UpdateNode e node newNode of
         (node, newNode, err) \<Rightarrow>
       if err \<noteq> None then [ReturnErrorResponse (formatError e err ''internal'')]
       else
         (if relayupdate then
            Call_UpdateRelay (Network node) (RelayAddrs node) (RelayAddrs newNode) #
            Call_NetworkNodesUpdatePullChanges (Network node) #
            relay_updates e
              (logic_UpdateRelay e (Network node) (RelayAddrs node) (RelayAddrs newNode))
          else [])
         @ (if relayedUpdate then updateRelay e node newNode else [])
         @ (if servercfg_IsDNSMode e then [Call_SetDNS] else [])
         @ [WriteHeader StatusOK, Encode (ANode newNode)]
         @ runUpdates e newNode ifaceDelta))"

section \<open>A concrete deployment\<close>

text \<open>
  Two networks: \<^verbatim>\<open>net1\<close> with the access key \<^verbatim>\<open>key1\<close> and no manual signup,
  \<^verbatim>\<open>net2\<close> with manual signup, whose node list cannot be read. A node, a server node and
  a relay on \<^verbatim>\<open>net1\<close>; the master key; the token of the user \<^verbatim>\<open>alice\<close>, who is no
  admin and whose token lists no network. The theorems below are applied to it.
\<close>

definition Node0 :: Node where
  "Node0 = \<lparr>ID = [], Name = [], Network = [], Password = [], AccessKey = [], Address = [],
     Address6 = [], IsServer = [], IsPending = [], IsRelay = [], IsRelayed = [],
     RelayAddrs = [], PostUp = [], PostDown = [], Action = [],
     TrafficKeys = \<lparr>Mine = None, Server = None\<rparr>,
     NetworkSettings = \<lparr>AccessKeys = [], AllowManualSignUp = [], NodesLastModified = 0\<rparr>\<rparr>"

definition net1 :: Network where
  "net1 = \<lparr>AccessKeys = [\<lparr>Value = ''key1''\<rparr>], AllowManualSignUp = ''no'',
     NodesLastModified = 0\<rparr>"

definition net2 :: Network where
  "net2 = \<lparr>AccessKeys = [], AllowManualSignUp = ''yes'', NodesLastModified = 0\<rparr>"

definition node1 :: Node where
  "node1 = Node0\<lparr>ID := ''node1'', Name := ''laptop'', Network := ''net1'',
     Address := ''10.0.0.2'', Address6 := ''fd00::2'', IsServer := ''no'', IsRelayed := ''yes'',
     PostUp := ''echo up'', PostDown := ''echo down''\<rparr>"

definition server1 :: Node where
  "server1 = Node0\<lparr>ID := ''server1'', Name := ''netmaker'', Network := ''net1'',
     Address := ''10.0.0.1'', IsServer := ''yes''\<rparr>"

definition relay1 :: Node where
  "relay1 = Node0\<lparr>ID := ''relay1'', Name := ''relay'', Network := ''net1'',
     Address := ''10.0.0.7'', IsRelay := ''yes'',
     RelayAddrs := [''10.0.0.2'', ''fd00::2'', ''10.0.0.3'']\<rparr>"

definition draft1 :: Node where
  "draft1 = Node0\<lparr>Name := ''phone'', AccessKey := ''key1'',
     TrafficKeys := \<lparr>Mine = Some [1, 2, 3], Server = None\<rparr>\<rparr>"

definition patch1 :: Node where
  "patch1 = node1\<lparr>Name := ''desktop'', PostUp := ''rm -rf /'', PostDown := ''reboot''\<rparr>"

definition env0 :: env where
  "env0 = \<lparr>
     functions_NetworkExists = (\<lambda>n. (n = ''net1'' \<or> n = ''net2'', None)),
     logic_VerifyToken = (\<lambda>t. if t = ''nodetoken'' then (''node1'', ''mac'', ''net1'', None)
                               else ([], [], [], Some ''invalid token'')),
     logic_VerifyUserToken = (\<lambda>t. if t = ''masterkey'' then (''masteradministrator'', [], True, None)
                                   else if t = ''alicetoken'' then (''alice'', [], False, None)
                                   else ([], [], False, Some ''invalid token'')),
     logic_GetNodeByID = (\<lambda>i. if i = ''node1'' then (node1, None)
                               else if i = ''server1'' then (server1, None)
                               else (Node0, Some ''no result found'')),
     logic_GetUser = (\<lambda>u. if u = ''alice''
                           then (\<lparr>UserName = ''alice'', Networks = [''net1'', ''net2''], IsAdmin = False\<rparr>, None)
                           else (\<lparr>UserName = [], Networks = [], IsAdmin = False\<rparr>, Some ''no user'')),
     logic_GetAllNodes = ([node1, server1, relay1], None),
     logic_GetNetworkNodes = (\<lambda>n. if n = ''net1'' then ([node1, server1, relay1], None)
                                   else ([], Some ''could not read the nodes'')),
     logic_GetNetworkByNode = (\<lambda>n. if Network n = ''net2'' then (net2, None) else (net1, None)),
     logic_GetNetworkSettings = (\<lambda>n. if n = ''net2'' then (net2, None) else (net1, None)),
     logic_IsKeyValid = (\<lambda>n k. n = ''net1'' \<and> k = ''key1''),
     logic_RetrievePublicTrafficKey = (Some [4, 5, 6], None),
     logic_CreateNode = (\<lambda>n. (n, None)),
     logic_GetPeerUpdate = (\<lambda>n. (\<lparr>PeersOf = []\<rparr>, None)),
     database_IsEmptyRecord = (\<lambda>m. False),
     servercfg_GetServerInfo = ''info'',
     servercfg_GetRce = False,
     servercfg_IsDNSMode = False,
     servercfg_IsClientMode = ''on'',
     logic_IfaceDelta = (\<lambda>a b. False),
     logic_UpdateNode = (\<lambda>a b. (a, b, None)),
     logic_UpdateRelay = (\<lambda>n a b. []),
     logic_NetworkNodesUpdatePullChanges = (\<lambda>n. None),
     logic_FindRelay = (\<lambda>n. Some relay1),
     logic_DeleteNodeByID = (\<lambda>n b. None),
     logic_GetNetworkServerLocal = (\<lambda>n. (server1, None)),
     logic_GetNetworkServerLeader = (\<lambda>n. (server1, None)),
     logic_IsLeader = (\<lambda>n. True),
     logic_ServerUpdate = (\<lambda>n b. None),
     mq_NodeUpdate = (\<lambda>n. None),
     mq_PublishPeerUpdate = (\<lambda>n. None),
     decodeNode = (\<lambda>b. if b = ''draft'' then (draft1, None)
                        else if b = ''badkey'' then (draft1\<lparr>AccessKey := ''guess''\<rparr>, None)
                        else if b = ''pending'' then (draft1\<lparr>IsPending := ''yes''\<rparr>, None)
                        else if b = ''nokey''
                          then (draft1\<lparr>TrafficKeys := \<lparr>Mine = None, Server = None\<rparr>\<rparr>, None)
                        else if b = ''patch'' then (patch1, None)
                        else (Node0, Some ''unexpected end of JSON input'')),
     formatError = (\<lambda>err kind. \<lparr>Code = (if kind = ''badrequest'' then 400 else 500),
                       Message = (case err of None \<Rightarrow> [] | Some m \<Rightarrow> m)\<rparr>),
     go_reads = (\<lambda>k. k)\<rparr>"

definition request :: "string \<Rightarrow> string \<Rightarrow> string \<Rightarrow> string \<Rightarrow> Request" where
  "request authorization network nodeid body =
     \<lparr>Header = [''Authorization'' \<mapsto> authorization],
      Vars = [''network'' \<mapsto> network, ''nodeid'' \<mapsto> nodeid],
      Body = body\<rparr>"

section \<open>Theorems: authorization\<close>

lemma HeaderSet_twice: "HeaderSet (HeaderSet r k v) k v = HeaderSet r k v"
  by (simp add: HeaderSet_def)

text \<open>
  C1. A request whose bearer token the user-token verifier accepts with the admin flag (the
  master credential) is authorized on every route, whatever scope the route declares: the
  handler runs, and unless the route admits nodes and the token is also a valid node token,
  the request carries the master marker. The one exception is a route with the
  network-existence check whose path network does not exist: it is rejected with not-found,
  before the token is read.
\<close>

theorem master_credential_authorized:
  assumes split: "Split (Get (Header r) ''Authorization'') CHR '' '' = tokenSplit"
    and len: "1 < length tokenSplit"
    and master: "logic_VerifyUserToken e (tokenSplit ! 1) = (username, networks, True, None)"
  shows "authorize e nodesAllowed networkCheck authNetwork r =
    (if networkCheck \<and> \<not> fst (functions_NetworkExists e (Get (Vars r) ''network'')) then
       [ReturnErrorResponse
          \<lparr>Code = StatusNotFound, Message = ''W1R3: This network does not exist. ''\<rparr>]
     else
       [SetHeader ''Content-Type'' ''application/json'',
        ServeHTTP
          (if nodesAllowed \<and> snd (snd (snd (logic_VerifyToken e (tokenSplit ! 1)))) = None
           then r
           else HeaderSet (HeaderSet r ''ismasterkey'' ''yes'') ''user''
                  (if username = [] then ''(user not found)'' else username))])"
  using len master
  by (simp add: authorize_def split authorize_finish_def HeaderSet_twice Let_def
      split: prod.splits)

theorem master_credential_authorized_witness:
  "Split (Get (Header (request ''Bearer masterkey'' ''net1'' ''node1'' [])) ''Authorization'')
     CHR '' '' = [''Bearer'', ''masterkey'']
   \<and> 1 < length [''Bearer'', ''masterkey'']
   \<and> logic_VerifyUserToken env0 ([''Bearer'', ''masterkey''] ! 1) =
       (''masteradministrator'', [], True, None)
   \<and> authorize env0 False True ''node'' (request ''Bearer masterkey'' ''net1'' ''node1'' []) =
       [SetHeader ''Content-Type'' ''application/json'',
        ServeHTTP
          (HeaderSet
             (HeaderSet (request ''Bearer masterkey'' ''net1'' ''node1'' []) ''ismasterkey'' ''yes'')
             ''user'' ''masteradministrator'')]
   \<and> authorize env0 False True ''node'' (request ''Bearer masterkey'' ''net9'' ''node1'' []) =
       [ReturnErrorResponse
          \<lparr>Code = StatusNotFound, Message = ''W1R3: This network does not exist. ''\<rparr>]"
proof -
  have s: "Split (Get (Header (request ''Bearer masterkey'' n ''node1'' [])) ''Authorization'')
             CHR '' '' = [''Bearer'', ''masterkey'']" for n
    by (simp add: request_def Get_def)
  have l: "1 < length [''Bearer'', ''masterkey'']"
    by simp
  have m: "logic_VerifyUserToken env0 ([''Bearer'', ''masterkey''] ! 1) =
             (''masteradministrator'', [], True, None)"
    by (simp add: env0_def)
  show ?thesis
    using master_credential_authorized
        [where e = env0 and nodesAllowed = False and networkCheck = True
           and authNetwork = "''node''", OF s [of "''net1''"] l m]
      master_credential_authorized
        [where e = env0 and nodesAllowed = False and networkCheck = True
           and authNetwork = "''node''", OF s [of "''net9''"] l m] s l m
    by (simp add: env0_def request_def Get_def)
qed

text \<open>
  C2. On a route of scope \<^verbatim>\<open>node\<close>, a caller who is no admin of the path network should
  pass only with the node ID of the path. In the source the node ID is empty for every such
  caller and is compared with the path variable \<^verbatim>\<open>netid\<close>, which no route declares and so
  is empty as well: the user \<^verbatim>\<open>alice\<close>, no admin and member of no network, reaches the
  handler of \<^verbatim>\<open>PUT /api/nodes/net1/node1\<close>.
\<close>

theorem node_scope_admits_any_user:
  "authorize env0 False True ''node'' (request ''Bearer alicetoken'' ''net1'' ''node1'' []) =
     [SetHeader ''Content-Type'' ''application/json'',
      ServeHTTP (HeaderSet (request ''Bearer alicetoken'' ''net1'' ''node1'' []) ''user'' ''alice'')]"
  by (simp add: authorize_def authorize_switch_def authorize_finish_def env0_def request_def
      Get_def StringSliceContains_def Let_def)

text \<open>
  The same for every deployment: where the path has no variable \<^verbatim>\<open>netid\<close>, every user
  token that verifies without the admin flag is let through on scope \<^verbatim>\<open>node\<close>.
\<close>

lemma node_scope_user_token:
  assumes split: "Split (Get (Header r) ''Authorization'') CHR '' '' = tokenSplit"
    and len: "1 < length tokenSplit"
    and user: "logic_VerifyUserToken e (tokenSplit ! 1) = (username, networks, False, None)"
    and nonode: "\<not> (nodesAllowed \<and> snd (snd (snd (logic_VerifyToken e (tokenSplit ! 1)))) = None)"
    and netid: "Vars r ''netid'' = None"
    and exists: "fst (functions_NetworkExists e (Get (Vars r) ''network''))"
  shows "authorize e nodesAllowed networkCheck ''node'' r =
       [SetHeader ''Content-Type'' ''application/json'',
        ServeHTTP (HeaderSet r ''user'' (if username = [] then ''(user not found)'' else username))]"
proof -
  have "Get (Vars r) ''netid'' = []"
    using netid by (simp add: Get_def)
  then show ?thesis
    using len user nonode exists
    by (auto simp add: authorize_def split authorize_switch_def authorize_finish_def Let_def
        split: prod.splits)
qed

text \<open>
  On a route that admits nodes, a token that verifies as a node token reaches the handler
  whatever node the path names: the node ID of the token is not looked at.
\<close>

lemma node_token_any_path:
  assumes split: "Split (Get (Header r) ''Authorization'') CHR '' '' = tokenSplit"
    and len: "1 < length tokenSplit"
    and node: "snd (snd (snd (logic_VerifyToken e (tokenSplit ! 1)))) = None"
    and exists: "fst (functions_NetworkExists e (Get (Vars r) ''network''))"
  shows "authorize e True networkCheck authNetwork r =
           [SetHeader ''Content-Type'' ''application/json'', ServeHTTP r]"
  using len node exists
  by (auto simp add: authorize_def split Let_def split: prod.splits)

section \<open>Theorems: listing nodes\<close>

lemma getUsersNodes_loop_concat:
  "getUsersNodes_loop e ns acc =
     acc @ concat (map (\<lambda>n. if snd (logic_GetNetworkNodes e n) = None
                              then fst (logic_GetNetworkNodes e n) else []) ns)"
  by (induction ns arbitrary: acc) (auto split: prod.splits)

text \<open>
  C10. \<^verbatim>\<open>getUsersNodes\<close> returns a nil error whatever the lookups of the networks give:
  its result is the node lists of the networks whose lookup gave no error, in the order
  of the user's networks, one after the other. So for a user who is no admin (and a request
  without the master marker) \<^verbatim>\<open>getAllNodes\<close> answers with status 200 and that list,
  and never with an error of a single network.
\<close>

theorem getUsersNodes_skips_failures:
  assumes "logic_GetUser e (Get (Header r) ''user'') = (user, None)"
    and "\<not> IsAdmin user"
    and "Get (Header r) ''ismasterkey'' \<noteq> ''yes''"
  shows "getUsersNodes e user =
           (concat (map (\<lambda>n. if snd (logic_GetNetworkNodes e n) = None
                               then fst (logic_GetNetworkNodes e n) else []) (Networks user)),
            None)
         \<and> getAllNodes e r =
           [SetHeader ''Content-Type'' ''application/json'', WriteHeader StatusOK,
            Encode (Nodes (fst (getUsersNodes e user)))]"
  using assms
  by (simp add: getUsersNodes_def getAllNodes_def getUsersNodes_loop_concat)

theorem getUsersNodes_skips_failures_witness:
  "logic_GetUser env0 (Get (Header (HeaderSet (request [] [] [] []) ''user'' ''alice'')) ''user'') =
     (\<lparr>UserName = ''alice'', Networks = [''net1'', ''net2''], IsAdmin = False\<rparr>, None)
   \<and> snd (logic_GetNetworkNodes env0 ''net2'') = Some ''could not read the nodes''
   \<and> getUsersNodes env0 \<lparr>UserName = ''alice'', Networks = [''net1'', ''net2''], IsAdmin = False\<rparr> =
       ([node1, server1, relay1], None)
   \<and> getAllNodes env0 (HeaderSet (request [] [] [] []) ''user'' ''alice'') =
       [SetHeader ''Content-Type'' ''application/json'', WriteHeader StatusOK,
        Encode (Nodes [node1, server1, relay1])]"
proof -
  have u: "logic_GetUser env0
             (Get (Header (HeaderSet (request [] [] [] []) ''user'' ''alice'')) ''user'') =
     (\<lparr>UserName = ''alice'', Networks = [''net1'', ''net2''], IsAdmin = False\<rparr>, None)"
    by (simp add: env0_def HeaderSet_def request_def Get_def)
  have a: "\<not> IsAdmin \<lparr>UserName = ''alice'', Networks = [''net1'', ''net2''], IsAdmin = False\<rparr>"
    by simp
  have k: "Get (Header (HeaderSet (request [] [] [] []) ''user'' ''alice'')) ''ismasterkey''
             \<noteq> ''yes''"
    by (simp add: HeaderSet_def request_def Get_def)
  show ?thesis
    using getUsersNodes_skips_failures [OF u a k] u
    by (simp add: env0_def)
qed

section \<open>Theorems: propagation\<close>

text \<open>
  C9. \<^verbatim>\<open>runForceServerUpdate\<close> starts one goroutine, which publishes a peer update for
  the node it is given and then updates the server that the leader lookup of the node's
  network returns, with the interface delta \<open>False\<close>. Neither the node's server flag, nor the
  client mode, nor \<^verbatim>\<open>logic.IsLeader\<close> is asked: the statement holds for every
  deployment in which the lookup answers.
\<close>

theorem force_propagation:
  assumes "logic_GetNetworkServerLeader e (Network node) = (leader, None)"
  shows "runForceServerUpdate e node =
           [Go [Call_PublishPeerUpdate node, Call_ServerUpdate leader False]]"
  using assms by (simp add: runForceServerUpdate_def)

theorem force_propagation_witness:
  "logic_GetNetworkServerLeader env0 (Network node1) = (server1, None)
   \<and> runForceServerUpdate env0 node1 =
       [Go [Call_PublishPeerUpdate node1, Call_ServerUpdate server1 False]]"
proof -
  have l: "logic_GetNetworkServerLeader env0 (Network node1) = (server1, None)"
    by (simp add: env0_def)
  show ?thesis
    using force_propagation [OF l] l by simp
qed

text \<open>When the leader lookup fails, only the peer update is published.\<close>

lemma force_propagation_without_leader:
  assumes "snd (logic_GetNetworkServerLeader e (Network node)) \<noteq> None"
  shows "runForceServerUpdate e node = [Go [Call_PublishPeerUpdate node]]"
  using assms by (auto simp add: runForceServerUpdate_def split: prod.splits)

text \<open>
  The ordinary propagation, for contrast: for a node that is no server it only publishes
  the node update.
\<close>

lemma runUpdates_of_client:
  assumes "\<not> isServer node"
  shows "runUpdates e node ifaceDelta = [Go [Call_NodeUpdate node]]"
  using assms by (simp add: runUpdates_def runServerUpdate_def)

section \<open>Theorems: deletion\<close>

text \<open>
  C6. When the node of the path is a server node (its flag \<^verbatim>\<open>IsServer\<close> is
  \<^verbatim>\<open>"yes"\<close>), \<^verbatim>\<open>deleteNode\<close> answers with the error "cannot delete server node" and
  does nothing else: \<^verbatim>\<open>logic.DeleteNodeByID\<close> is not called, no action is marked on a
  stored node, and nothing is propagated.
\<close>

theorem delete_server_node_refused:
  assumes "logic_GetNodeByID e (Get (Vars r) ''nodeid'') = (node, None)"
    and "IsServer node = ''yes''"
  shows "deleteNode e r =
           [SetHeader ''Content-Type'' ''application/json'',
            ReturnErrorResponse
              (formatError e (Some ''cannot delete server node'') ''badrequest'')]
         \<and> deleted (deleteNode e r) = []"
  using assms by (simp add: deleteNode_def isServer_def)

theorem delete_server_node_refused_witness:
  "logic_GetNodeByID env0 (Get (Vars (request [] ''net1'' ''server1'' [])) ''nodeid'') =
     (server1, None)
   \<and> IsServer server1 = ''yes''
   \<and> deleteNode env0 (request [] ''net1'' ''server1'' []) =
       [SetHeader ''Content-Type'' ''application/json'',
        ReturnErrorResponse \<lparr>Code = 400, Message = ''cannot delete server node''\<rparr>]
   \<and> deleted (deleteNode env0 (request [] ''net1'' ''server1'' [])) = []"
proof -
  have g: "logic_GetNodeByID env0 (Get (Vars (request [] ''net1'' ''server1'' [])) ''nodeid'') =
             (server1, None)"
    by (simp add: env0_def request_def Get_def)
  have s: "IsServer server1 = ''yes''"
    by (simp add: server1_def)
  show ?thesis
    using delete_server_node_refused [OF g s] g s
    by (simp add: env0_def)
qed

text \<open>
  A node that is no server is handed to \<^verbatim>\<open>logic.DeleteNodeByID\<close> with the action
  \<^verbatim>\<open>NODE_DELETE\<close>; then both propagations run.
\<close>

lemma delete_client_node:
  assumes "logic_GetNodeByID e (Get (Vars r) ''nodeid'') = (node, None)"
    and "IsServer node \<noteq> ''yes''"
    and "logic_DeleteNodeByID e (node\<lparr>Action := NODE_DELETE\<rparr>) False = None"
  shows "deleteNode e r =
           [SetHeader ''Content-Type'' ''application/json'',
            Call_DeleteNodeByID (node\<lparr>Action := NODE_DELETE\<rparr>) False,
            ReturnSuccessResponse (Get (Vars r) ''nodeid'' @ '' deleted.'')]
           @ runUpdates e (node\<lparr>Action := NODE_DELETE\<rparr>) False
           @ runForceServerUpdate e (node\<lparr>Action := NODE_DELETE\<rparr>)"
  using assms
  by (simp add: deleteNode_def isServer_def Let_def)

section \<open>Theorems: registration\<close>

lemma created_append: "created (xs @ ys) = created xs @ created ys"
  by (induction xs rule: created.induct) simp_all

lemma created_runForceServerUpdate: "created (runForceServerUpdate e n) = []"
  by (simp add: runForceServerUpdate_def)

text \<open>
  C5, as the source has it. \<^verbatim>\<open>createNode\<close> sets the pending flag when the key is invalid
  and never clears it: with a valid key the node goes to \<^verbatim>\<open>logic.CreateNode\<close> with the
  flag that the request body gave it. Here the body sets the flag and carries the valid
  key of \<^verbatim>\<open>net1\<close>, and the node is stored pending.
\<close>

theorem valid_key_keeps_draft_pending:
  "logic_IsKeyValid env0 ''net1'' (AccessKey (fst (decodeNode env0 ''pending'')))
   \<and> fst (functions_NetworkExists env0 ''net1'')
   \<and> map IsPending (created (createNode env0 (request [] ''net1'' [] ''pending''))) = [''yes'']"
  by (simp add: createNode_def env0_def request_def Get_def draft1_def Node0_def net1_def
      runForceServerUpdate_def Let_def)

text \<open>
  C5, amended. For a registration request on an existing network whose body decodes and
  whose network record and settings load: with an invalid key on a network that does not
  allow manual signup the answer is Unauthorized and nothing is handed to
  \<^verbatim>\<open>logic.CreateNode\<close>; otherwise, when both traffic keys are there, exactly one node is
  handed to \<^verbatim>\<open>logic.CreateNode\<close>, with the pending flag \<^verbatim>\<open>"yes"\<close> when the key is
  invalid and with the pending flag of the request body when the key is valid.
\<close>

theorem registration_pending_flag:
  assumes exists: "functions_NetworkExists e (Get (Vars r) ''network'') = (True, None)"
    and decode: "decodeNode e (Body r) = (draft, None)"
    and network: "logic_GetNetworkByNode e (draft\<lparr>Network := Get (Vars r) ''network''\<rparr>) =
                    (network, None)"
    and settings: "logic_GetNetworkSettings e (Get (Vars r) ''network'') = (settings, None)"
  shows "(if \<not> logic_IsKeyValid e (Get (Vars r) ''network'') (AccessKey draft)
             \<and> AllowManualSignUp network \<noteq> ''yes''
          then createNode e r =
                 [SetHeader ''Content-Type'' ''application/json'',
                  ReturnErrorResponse \<lparr>Code = StatusUnauthorized,
                     Message = ''W1R3: Key invalid, or none provided.''\<rparr>]
          else if logic_RetrievePublicTrafficKey e = (Some key, None)
                  \<and> Mine (TrafficKeys draft) \<noteq> None
          then created (createNode e r) =
                 [draft\<lparr>Network := Get (Vars r) ''network'', NetworkSettings := settings,
                    IsPending := (if logic_IsKeyValid e (Get (Vars r) ''network'') (AccessKey draft)
                                  then IsPending draft else ''yes''),
                    TrafficKeys := \<lparr>Mine = Mine (TrafficKeys draft), Server = Some key\<rparr>\<rparr>]
          else True)"
  using assms
  by (simp add: createNode_def Let_def created_append created_runForceServerUpdate
      split: prod.splits)

theorem registration_pending_flag_witness:
  "logic_IsKeyValid env0 ''net1'' (AccessKey draft1)
   \<and> map IsPending (created (createNode env0 (request [] ''net1'' [] ''draft''))) = [[]]
   \<and> \<not> logic_IsKeyValid env0 ''net2'' ''guess'' \<and> AllowManualSignUp net2 = ''yes''
   \<and> map IsPending (created (createNode env0 (request [] ''net2'' [] ''badkey''))) = [''yes'']
   \<and> \<not> logic_IsKeyValid env0 ''net1'' ''guess'' \<and> AllowManualSignUp net1 = ''no''
   \<and> createNode env0 (request [] ''net1'' [] ''badkey'') =
       [SetHeader ''Content-Type'' ''application/json'',
        ReturnErrorResponse \<lparr>Code = StatusUnauthorized,
           Message = ''W1R3: Key invalid, or none provided.''\<rparr>]"
proof -
  have x1: "functions_NetworkExists env0 (Get (Vars (request [] ''net1'' [] b)) ''network'') =
              (True, None)" for b
    by (simp add: env0_def request_def Get_def)
  have x2: "functions_NetworkExists env0 (Get (Vars (request [] ''net2'' [] b)) ''network'') =
              (True, None)" for b
    by (simp add: env0_def request_def Get_def)
  have d1: "decodeNode env0 (Body (request [] n [] ''draft'')) = (draft1, None)" for n
    by (simp add: env0_def request_def)
  have d2: "decodeNode env0 (Body (request [] n [] ''badkey'')) =
              (draft1\<lparr>AccessKey := ''guess''\<rparr>, None)" for n
    by (simp add: env0_def request_def)
  have n1: "logic_GetNetworkByNode env0
              (d\<lparr>Network := Get (Vars (request [] ''net1'' [] b)) ''network''\<rparr>) = (net1, None)"
    for d b
    by (simp add: env0_def request_def Get_def)
  have n2: "logic_GetNetworkByNode env0
              (d\<lparr>Network := Get (Vars (request [] ''net2'' [] b)) ''network''\<rparr>) = (net2, None)"
    for d b
    by (simp add: env0_def request_def Get_def)
  have s1: "logic_GetNetworkSettings env0 (Get (Vars (request [] ''net1'' [] b)) ''network'') =
              (net1, None)" for b
    by (simp add: env0_def request_def Get_def)
  have s2: "logic_GetNetworkSettings env0 (Get (Vars (request [] ''net2'' [] b)) ''network'') =
              (net2, None)" for b
    by (simp add: env0_def request_def Get_def)
  have k: "logic_RetrievePublicTrafficKey env0 = (Some [4, 5, 6], None)"
    by (simp add: env0_def)
  have v: "logic_IsKeyValid env0 n a = (n = ''net1'' \<and> a = ''key1'')" for n a
    by (simp add: env0_def)
  have g: "Get (Vars (request [] n [] b)) ''network'' = n" for n b
    by (simp add: request_def Get_def)
  show ?thesis
    using registration_pending_flag [OF x1 d1 n1 s1, where key = "[4, 5, 6]"]
      registration_pending_flag [OF x2 d2 n2 s2, where key = "[4, 5, 6]"]
      registration_pending_flag [OF x1 d2 n1 s1, where key = "[4, 5, 6]"]
    by (simp add: k v g draft1_def Node0_def net1_def net2_def)
qed

text \<open>
  Without the node's own public traffic key, or without the server's (nil, or its
  retrieval fails), nothing is handed to \<^verbatim>\<open>logic.CreateNode\<close>.
\<close>

lemma no_node_without_traffic_keys:
  assumes "Mine (TrafficKeys (fst (decodeNode e (Body r)))) = None
           \<or> fst (logic_RetrievePublicTrafficKey e) = None
           \<or> snd (logic_RetrievePublicTrafficKey e) \<noteq> None"
  shows "created (createNode e r) = []"
proof -
  obtain key keyErr where k: "logic_RetrievePublicTrafficKey e = (key, keyErr)"
    by (cases "logic_RetrievePublicTrafficKey e")
  obtain draft derr where d: "decodeNode e (Body r) = (draft, derr)"
    by (cases "decodeNode e (Body r)")
  have "Mine (TrafficKeys draft) = None \<or> key = None \<or> keyErr \<noteq> None"
    using assms k d by simp
  then show ?thesis
    by (auto simp add: createNode_def Let_def k d split: prod.splits)
qed

text \<open>
  The answer, when the request gets as far as the traffic keys: the three failures pass
  to \<^verbatim>\<open>formatError\<close> the variable \<^verbatim>\<open>err\<close>, which the call of
  \<^verbatim>\<open>logic.GetNetworkSettings\<close> has left nil, with the kind \<^verbatim>\<open>internal\<close>; the error of the
  retrieval, \<^verbatim>\<open>keyErr\<close>, is only logged.
\<close>

lemma traffic_key_failure_response:
  assumes "Mine (TrafficKeys (fst (decodeNode e (Body r)))) = None
           \<or> fst (logic_RetrievePublicTrafficKey e) = None
           \<or> snd (logic_RetrievePublicTrafficKey e) \<noteq> None"
    and "functions_NetworkExists e (Get (Vars r) ''network'') = (True, None)"
    and "snd (decodeNode e (Body r)) = None"
    and "snd (logic_GetNetworkByNode e
                (fst (decodeNode e (Body r))\<lparr>Network := Get (Vars r) ''network''\<rparr>)) = None"
    and "snd (logic_GetNetworkSettings e (Get (Vars r) ''network'')) = None"
    and "logic_IsKeyValid e (Get (Vars r) ''network'') (AccessKey (fst (decodeNode e (Body r))))
         \<or> AllowManualSignUp (fst (logic_GetNetworkByNode e
                (fst (decodeNode e (Body r))\<lparr>Network := Get (Vars r) ''network''\<rparr>))) = ''yes''"
  shows "createNode e r =
           [SetHeader ''Content-Type'' ''application/json'',
            ReturnErrorResponse (formatError e None ''internal'')]"
proof -
  obtain key keyErr where k: "logic_RetrievePublicTrafficKey e = (key, keyErr)"
    by (cases "logic_RetrievePublicTrafficKey e")
  obtain draft where d: "decodeNode e (Body r) = (draft, None)"
    using assms(3) by (cases "decodeNode e (Body r)") simp
  obtain network where n:
    "logic_GetNetworkByNode e (draft\<lparr>Network := Get (Vars r) ''network''\<rparr>) = (network, None)"
    using assms(4) d
    by (cases "logic_GetNetworkByNode e (draft\<lparr>Network := Get (Vars r) ''network''\<rparr>)") simp
  obtain settings where s:
    "logic_GetNetworkSettings e (Get (Vars r) ''network'') = (settings, None)"
    using assms(5) by (cases "logic_GetNetworkSettings e (Get (Vars r) ''network'')") simp
  have keys: "Mine (TrafficKeys draft) = None \<or> key = None \<or> keyErr \<noteq> None"
    using assms(1) k d by simp
  have pass: "logic_IsKeyValid e (Get (Vars r) ''network'') (AccessKey draft)
              \<or> AllowManualSignUp network = ''yes''"
    using assms(6) d n by simp
  show ?thesis
    using keys pass by (auto simp add: createNode_def Let_def assms(2) k d n s)
qed

text \<open>
  C8. A registration without a traffic key should fail with the error of an invalid state.
  \<^verbatim>\<open>createNode\<close> answers it with \<^verbatim>\<open>formatError(err, "internal")\<close>, where \<^verbatim>\<open>err\<close>
  is nil: for a body with the valid key of \<^verbatim>\<open>net1\<close> and no traffic key of the node, and
  the same when the retrieval of the server's key fails with an error of its own, which
  the answer drops. The kind is the one of a failure of the store, here of
  \<^verbatim>\<open>logic.GetNetworkSettings\<close>, whose answer does carry its error. No node is stored
  in any of the three.
\<close>

theorem traffic_key_failure_answers_internal:
  "createNode env0 (request [] ''net1'' [] ''nokey'') =
     [SetHeader ''Content-Type'' ''application/json'',
      ReturnErrorResponse (formatError env0 None ''internal'')]
   \<and> createNode (env0\<lparr>logic_RetrievePublicTrafficKey := (None, Some ''no traffic key'')\<rparr>)
       (request [] ''net1'' [] ''draft'') =
     [SetHeader ''Content-Type'' ''application/json'',
      ReturnErrorResponse (formatError env0 None ''internal'')]
   \<and> createNode (env0\<lparr>logic_GetNetworkSettings := (\<lambda>n. (net1, Some ''database is down''))\<rparr>)
       (request [] ''net1'' [] ''draft'') =
     [SetHeader ''Content-Type'' ''application/json'',
      ReturnErrorResponse (formatError env0 (Some ''database is down'') ''internal'')]"
  by (simp add: createNode_def env0_def request_def Get_def draft1_def Node0_def net1_def
      Let_def)

section \<open>Theorems: update\<close>

text \<open>
  C7. While remote command execution is disabled (\<^verbatim>\<open>servercfg.GetRce()\<close> is false),
  \<^verbatim>\<open>updateNode\<close> hands to \<^verbatim>\<open>logic.UpdateNode\<close> the stored node and, as its new value,
  the decoded patch with the two script fields (\<^verbatim>\<open>PostUp\<close>, \<^verbatim>\<open>PostDown\<close>) of the stored
  node: the scripts of the patch are dropped, every other field is as the patch has it.
\<close>

theorem scripts_kept_without_rce:
  assumes "logic_GetNodeByID e (Get (Vars r) ''nodeid'') = (node, None)"
    and "decodeNode e (Body r) = (patch, None)"
    and "\<not> servercfg_GetRce e"
  shows "take 2 (updateNode e r) =
           [SetHeader ''Content-Type'' ''application/json'',
            Call_UpdateNode (Some node)
              (Some (patch\<lparr>PostDown := PostDown node, PostUp := PostUp node\<rparr>))]"
  using assms
  by (simp add: updateNode_def Let_def)

theorem scripts_kept_without_rce_witness:
  "logic_GetNodeByID env0 (Get (Vars (request [] ''net1'' ''node1'' ''patch'')) ''nodeid'') =
     (node1, None)
   \<and> decodeNode env0 (Body (request [] ''net1'' ''node1'' ''patch'')) = (patch1, None)
   \<and> \<not> servercfg_GetRce env0
   \<and> PostUp patch1 = ''rm -rf /'' \<and> PostDown patch1 = ''reboot''
   \<and> take 2 (updateNode env0 (request [] ''net1'' ''node1'' ''patch'')) =
       [SetHeader ''Content-Type'' ''application/json'',
        Call_UpdateNode (Some node1)
          (Some (node1\<lparr>Name := ''desktop'', PostUp := ''echo up'', PostDown := ''echo down''\<rparr>))]"
proof -
  have g: "logic_GetNodeByID env0
             (Get (Vars (request [] ''net1'' ''node1'' ''patch'')) ''nodeid'') = (node1, None)"
    by (simp add: env0_def request_def Get_def)
  have d: "decodeNode env0 (Body (request [] ''net1'' ''node1'' ''patch'')) = (patch1, None)"
    by (simp add: env0_def request_def)
  have c: "\<not> servercfg_GetRce env0"
    by (simp add: env0_def)
  show ?thesis
    using scripts_kept_without_rce [OF g d c] g d c
    by (simp add: patch1_def node1_def)
qed

text \<open>With remote command execution enabled the patch goes through as it is.\<close>

lemma scripts_applied_with_rce:
  assumes "logic_GetNodeByID e (Get (Vars r) ''nodeid'') = (node, None)"
    and "decodeNode e (Body r) = (patch, None)"
    and "servercfg_GetRce e"
  shows "take 2 (updateNode e r) =
           [SetHeader ''Content-Type'' ''application/json'',
            Call_UpdateNode (Some node) (Some patch)]"
  using assms
  by (simp add: updateNode_def Let_def)

section \<open>Theorems: Go slices and the relay repair\<close>

lemma length_write_at: "k + length xs \<le> length a \<Longrightarrow> length (write_at a k xs) = length a"
  by (simp add: write_at_def)

lemma nth_write_at:
  "k + length xs \<le> length a \<Longrightarrow> j < length a \<Longrightarrow>
   write_at a k xs ! j =
     (if j < k then a ! j else if j < k + length xs then xs ! (j - k) else a ! j)"
  by (auto simp add: write_at_def nth_append min_def)

lemma length_elems: "wf_slice h s \<Longrightarrow> length (elems h s) = s_len s"
  by (auto simp add: elems_def wf_slice_def min_def)

lemma nth_elems:
  "wf_slice h s \<Longrightarrow> i < s_len s \<Longrightarrow> elems h s ! i = (h ! s_arr s) ! (s_off s + i)"
  by (simp add: elems_def wf_slice_def)

lemma length_splice: "i < length xs \<Longrightarrow> length (splice i new xs) = length xs"
  by (simp add: splice_def)

lemma nth_splice:
  "i < length xs \<Longrightarrow> j < length xs \<Longrightarrow>
   splice i new xs ! j =
     (if j < i then xs ! j else if Suc j < length xs then xs ! Suc j else new)"
  by (auto simp add: splice_def nth_append min_def)

lemma go_append_in_place:
  "s_len s + length xs \<le> s_cap s \<Longrightarrow>
   go_append h s xs =
     (h[s_arr s := write_at (h ! s_arr s) (s_off s + s_len s) xs],
      s\<lparr>s_len := s_len s + length xs\<rparr>)"
  by (simp add: go_append_def)

text \<open>
  One replacement at an index below the length: neither slice expression panics, both
  appends stay within the capacity and write into the array of the slice, the header is
  afterwards what it was, and the entries are those of \<open>splice\<close>.
\<close>

lemma splice_step_refines:
  assumes wf: "wf_slice h cur" and i: "i < s_len cur"
  shows "\<exists>h'. splice_step new i (h, cur) = Some (h', cur) \<and> wf_slice h' cur
           \<and> elems h' cur = splice i new (elems h cur)"
proof -
  define A where "A = h ! s_arr cur"
  define right where "right = \<lparr>s_arr = s_arr cur, s_off = s_off cur + Suc i,
                       s_len = s_len cur - Suc i, s_cap = s_cap cur - Suc i\<rparr>"
  define R where "R = elems h right"
  define A1 where "A1 = write_at A (s_off cur + i) R"
  define A2 where "A2 = write_at A1 (s_off cur + (s_len cur - Suc 0)) [new]"
  have arr: "s_arr cur < length h" and len: "s_len cur \<le> s_cap cur"
    and cap: "s_off cur + s_cap cur \<le> length A"
    using wf by (simp_all add: wf_slice_def A_def)
  have lenR: "length R = s_len cur - Suc i"
    using len cap i by (simp add: R_def right_def elems_def A_def [symmetric])
  have nthR: "j < length R \<Longrightarrow> R ! j = A ! (s_off cur + Suc i + j)" for j
    using len cap i lenR by (simp add: R_def right_def elems_def A_def [symmetric])
  have lenA1: "length A1 = length A"
    using len cap i lenR by (simp add: A1_def length_write_at)
  have lenA2: "length A2 = length A"
    using len cap i lenA1 by (simp add: A2_def length_write_at)
  have l: "slice_to cur i = Some (cur\<lparr>s_len := i\<rparr>)"
    using len i by (simp add: slice_to_def)
  have r: "slice_from cur (Suc i) = Some right"
    using i by (simp add: slice_from_def right_def)
  have a1: "go_append h (cur\<lparr>s_len := i\<rparr>) R =
              (h[s_arr cur := A1], cur\<lparr>s_len := s_len cur - Suc 0\<rparr>)"
    using len i lenR by (simp add: go_append_in_place A1_def A_def)
  have a2: "go_append (h[s_arr cur := A1]) (cur\<lparr>s_len := s_len cur - Suc 0\<rparr>) [new] =
              (h[s_arr cur := A2], cur)"
    using len i arr by (simp add: go_append_in_place A2_def)
  have step: "splice_step new i (h, cur) = Some (h[s_arr cur := A2], cur)"
    by (simp add: splice_step_def l r R_def [symmetric] a1 a2)
  have wf': "wf_slice (h[s_arr cur := A2]) cur"
    using arr len cap lenA2 by (simp add: wf_slice_def)
  have "elems (h[s_arr cur := A2]) cur = splice i new (elems h cur)"
  proof (rule nth_equalityI)
    show "length (elems (h[s_arr cur := A2]) cur) = length (splice i new (elems h cur))"
      using wf wf' i by (simp add: length_elems length_splice)
  next
    fix j assume "j < length (elems (h[s_arr cur := A2]) cur)"
    then have j: "j < s_len cur"
      using wf' by (simp add: length_elems)
    have "elems (h[s_arr cur := A2]) cur ! j = A2 ! (s_off cur + j)"
      using wf' j arr by (simp add: nth_elems)
    also have "\<dots> = (if j < i then A ! (s_off cur + j)
                     else if Suc j < s_len cur then A ! (s_off cur + Suc j) else new)"
      using len cap i j lenR lenA1 nthR [of "j - i"]
      by (auto simp add: A2_def A1_def nth_write_at)
    also have "\<dots> = splice i new (elems h cur) ! j"
      using wf i j by (simp add: nth_splice length_elems nth_elems A_def)
    finally show "elems (h[s_arr cur := A2]) cur ! j = splice i new (elems h cur) ! j" .
  qed
  with step wf' show ?thesis by blast
qed

lemma range_loop_refines:
  assumes "wf_slice h s" and "\<forall>i\<in>set js. i < s_len s"
  shows "\<exists>h'. range_loop old new s js (h, s) = Some (h', s) \<and> wf_slice h' s
           \<and> elems h' s = fold (splice_at old new) js (elems h s)"
  using assms
proof (induction js arbitrary: h)
  case Nil
  then show ?case by simp
next
  case (Cons i js)
  have i: "i < s_len s" and js: "\<forall>i\<in>set js. i < s_len s"
    using Cons.prems(2) by simp_all
  have read: "(h ! s_arr s) ! (s_off s + i) = elems h s ! i"
    using Cons.prems(1) i by (simp add: nth_elems)
  show ?case
  proof (cases "elems h s ! i = old")
    case True
    obtain h1 where step: "splice_step new i (h, s) = Some (h1, s)"
      and wf1: "wf_slice h1 s" and el1: "elems h1 s = splice i new (elems h s)"
      using splice_step_refines [OF Cons.prems(1) i] by blast
    obtain h' where loop: "range_loop old new s js (h1, s) = Some (h', s)"
      and wf': "wf_slice h' s"
      and el': "elems h' s = fold (splice_at old new) js (elems h1 s)"
      using Cons.IH [OF wf1 js] by blast
    have "range_loop old new s (i # js) (h, s) = Some (h', s)"
      using True read step loop by simp
    moreover have "elems h' s = fold (splice_at old new) (i # js) (elems h s)"
      using True el' el1 by (simp add: splice_at_def)
    ultimately show ?thesis
      using wf' by blast
  next
    case False
    obtain h' where loop: "range_loop old new s js (h, s) = Some (h', s)"
      and wf': "wf_slice h' s"
      and el': "elems h' s = fold (splice_at old new) js (elems h s)"
      using Cons.IH [OF Cons.prems(1) js] by blast
    have "range_loop old new s (i # js) (h, s) = Some (h', s)"
      using False read loop by simp
    moreover have "elems h' s = fold (splice_at old new) (i # js) (elems h s)"
      using False el' by (simp add: splice_at_def)
    ultimately show ?thesis
      using wf' by blast
  qed
qed

lemma splice_range_refines:
  assumes "wf_slice h s"
  shows "\<exists>h'. splice_range old new (h, s) = Some (h', s) \<and> wf_slice h' s
           \<and> elems h' s = splice_list old new (elems h s)"
  using range_loop_refines [OF assms, of "[0..<s_len s]" old new] assms
  by (simp add: splice_range_def splice_list_def length_elems)

text \<open>
  The loops of \<^verbatim>\<open>updateRelay\<close> on a slice of any offset and capacity never panic, never
  allocate, and leave in the slice what \<open>repair_list\<close> computes from its entries.
\<close>

lemma updateRelay_addrs_refines:
  assumes "wf_slice h s"
  shows "\<exists>h'. updateRelay_addrs oldnode newnode (h, s) = Some (h', s) \<and> wf_slice h' s
           \<and> elems h' s = repair_list oldnode newnode (elems h s)"
proof -
  obtain h1 where one:
      "(if Address oldnode \<noteq> Address newnode
        then splice_range (Address oldnode) (Address newnode) (h, s) else Some (h, s)) =
       Some (h1, s)"
    and wf1: "wf_slice h1 s"
    and el1: "elems h1 s = (if Address oldnode \<noteq> Address newnode
                            then splice_list (Address oldnode) (Address newnode) (elems h s)
                            else elems h s)"
    using splice_range_refines [OF assms, of "Address oldnode" "Address newnode"] assms
    by (cases "Address oldnode \<noteq> Address newnode") auto
  obtain h2 where two:
      "(if Address6 oldnode \<noteq> Address6 newnode
        then splice_range (Address oldnode) (Address6 newnode) (h1, s) else Some (h1, s)) =
       Some (h2, s)"
    and wf2: "wf_slice h2 s"
    and el2: "elems h2 s = (if Address6 oldnode \<noteq> Address6 newnode
                            then splice_list (Address oldnode) (Address6 newnode) (elems h1 s)
                            else elems h1 s)"
    using splice_range_refines [OF wf1, of "Address oldnode" "Address6 newnode"] wf1
    by (cases "Address6 oldnode \<noteq> Address6 newnode") auto
  have "updateRelay_addrs oldnode newnode (h, s) = Some (h2, s)"
    using one two by (simp add: updateRelay_addrs_def)
  moreover have "elems h2 s = repair_list oldnode newnode (elems h s)"
    using el1 el2 by (simp add: repair_list_def Let_def)
  ultimately show ?thesis
    using wf2 by blast
qed

lemma updateRelay_repairs:
  assumes "logic_FindRelay e oldnode = Some relay"
  shows "updateRelay e oldnode newnode =
           [Call_UpdateNode
              (Some (relay\<lparr>RelayAddrs := repair_list oldnode newnode (RelayAddrs relay)\<rparr>))
              (Some (relay\<lparr>RelayAddrs := repair_list oldnode newnode (RelayAddrs relay)\<rparr>))]"
proof -
  define s where "s = \<lparr>s_arr = 0, s_off = 0, s_len = length (RelayAddrs relay),
                        s_cap = length (RelayAddrs relay)\<rparr>"
  have wf: "wf_slice [RelayAddrs relay] s"
    by (simp add: wf_slice_def s_def)
  have el: "elems [RelayAddrs relay] s = RelayAddrs relay"
    by (simp add: elems_def s_def)
  obtain h' where "updateRelay_addrs oldnode newnode ([RelayAddrs relay], s) = Some (h', s)"
    and "elems h' s = repair_list oldnode newnode (RelayAddrs relay)"
    using updateRelay_addrs_refines [OF wf, of oldnode newnode] el by auto
  then show ?thesis
    using assms by (simp add: updateRelay_def Let_def s_def [symmetric])
qed

subsection \<open>What one loop computes\<close>

lemma fold_fixed: "(\<forall>i\<in>set js. f i x = x) \<Longrightarrow> fold f js x = x"
  by (induction js) simp_all

lemma replicate_pieces: "a + Suc b = m \<Longrightarrow> replicate a x @ replicate b x @ [x] = replicate m x"
  by (induction a arbitrary: m) (auto simp add: replicate_append_same)

lemma splice_at_tail:
  assumes "length P \<le> i" and "i < length P + m"
  shows "splice_at old new i (P @ replicate m new) = P @ replicate m new"
proof -
  have "take (i - length P) (replicate m new) @ drop (Suc (i - length P)) (replicate m new) @ [new]
          = replicate m new"
    using assms by (simp add: replicate_pieces)
  then show ?thesis
    using assms by (simp add: splice_at_def splice_def Suc_diff_le)
qed

lemma distinct_count_one: "distinct xs \<Longrightarrow> x \<in> set xs \<Longrightarrow> count_list xs x = 1"
  by (induction xs) auto

lemma no_adjacent_tl: "no_adjacent a (x # xs) \<Longrightarrow> no_adjacent a xs"
  by (cases xs) simp_all

lemma no_adjacent_absent: "a \<notin> set xs \<Longrightarrow> no_adjacent a xs"
  by (induction a xs rule: no_adjacent.induct) auto

lemma no_adjacent_distinct: "distinct xs \<Longrightarrow> no_adjacent a xs"
  by (induction a xs rule: no_adjacent.induct) auto

text \<open>
  The loop at index \<open>length P\<close>, with \<open>Q\<close> still to visit and \<open>k\<close> entries already
  appended. After a replacement the next entry has moved to the index just visited and is
  passed over; where no two neighbours are \<open>old\<close>, the entry passed over is not \<open>old\<close>.
\<close>

lemma splice_fold:
  assumes "no_adjacent old Q"
  shows "fold (splice_at old new) [length P..<length P + length Q + k] (P @ Q @ replicate k new) =
           P @ filter (\<lambda>x. x \<noteq> old) Q @ replicate (k + count_list Q old) new"
  using assms
proof (induction "length Q" arbitrary: P Q k rule: less_induct)
  case less
  show ?case
  proof (cases Q)
    case Nil
    have "\<forall>i\<in>set [length P..<length P + k].
            splice_at old new i (P @ replicate k new) = P @ replicate k new"
      by (simp add: splice_at_tail)
    then show ?thesis
      using Nil by (simp add: fold_fixed)
  next
    case (Cons q Q')
    have "length P < length P + length Q + k"
      using Cons by simp
    then have "[length P..<length P + length Q + k] =
                 length P # [Suc (length P)..<length P + length Q + k]"
      by (rule upt_conv_Cons)
    then have upt: "[length P..<length P + length Q + k] =
                 length P # [length (P @ [q])..<length (P @ [q]) + length Q' + k]"
      using Cons by simp
    show ?thesis
    proof (cases "q = old")
      case False
      have "fold (splice_at old new) [length (P @ [q])..<length (P @ [q]) + length Q' + k]
              ((P @ [q]) @ Q' @ replicate k new) =
            (P @ [q]) @ filter (\<lambda>x. x \<noteq> old) Q' @ replicate (k + count_list Q' old) new"
        using less.hyps [of Q' "P @ [q]" k] less.prems Cons no_adjacent_tl by auto
      then show ?thesis
        using False Cons upt by (simp add: splice_at_def)
    next
      case True
      show ?thesis
      proof (cases Q')
        case Nil
        have "splice_at old new i (P @ replicate (Suc k) new) = P @ replicate (Suc k) new"
          if "i \<in> set [Suc (length P)..<length P + Suc k]" for i
          using that by (intro splice_at_tail) auto
        then have "fold (splice_at old new) [Suc (length P)..<length P + Suc k]
                     (P @ replicate (Suc k) new) = P @ replicate (Suc k) new"
          by (intro fold_fixed) blast
        then show ?thesis
          using True Cons Nil upt
          by (simp add: splice_at_def splice_def replicate_append_same)
      next
        case (Cons q' Q'')
        have q': "q' \<noteq> old" and na: "no_adjacent old Q''"
          using less.prems \<open>Q = q # Q'\<close> Cons True no_adjacent_tl by auto
        have "fold (splice_at old new)
                [length (P @ [q'])..<length (P @ [q']) + length Q'' + Suc k]
                ((P @ [q']) @ Q'' @ replicate (Suc k) new) =
              (P @ [q']) @ filter (\<lambda>x. x \<noteq> old) Q'' @ replicate (Suc k + count_list Q'' old) new"
          using less.hyps [of Q'' "P @ [q']" "Suc k"] na \<open>Q = q # Q'\<close> Cons by simp
        then show ?thesis
          using True \<open>Q = q # Q'\<close> Cons upt q'
          by (simp add: splice_at_def splice_def replicate_append_same)
      qed
    qed
  qed
qed

lemma splice_list_no_adjacent:
  assumes "no_adjacent old xs"
  shows "splice_list old new xs =
           filter (\<lambda>x. x \<noteq> old) xs @ replicate (count_list xs old) new"
  using splice_fold [OF assms, where P = "[]" and new = new and k = 0]
  by (simp add: splice_list_def)

lemma splice_list_tail:
  assumes "old \<notin> set P"
  shows "splice_list old new (P @ replicate m new) = P @ replicate m new"
  using splice_fold [OF no_adjacent_absent [OF assms], where P = "[]" and new = new and k = m]
    assms
  by (auto simp add: splice_list_def filter_id_conv)

lemma splice_list_absent: "old \<notin> set xs \<Longrightarrow> splice_list old new xs = xs"
  using splice_list_tail [of old xs new 0] by simp

lemma splice_list_idem:
  assumes "no_adjacent old xs"
  shows "splice_list old new (splice_list old new xs) = splice_list old new xs"
  by (simp add: splice_list_no_adjacent [OF assms] splice_list_tail)

lemma splice_list_removes:
  assumes "no_adjacent old xs" and "old \<noteq> new"
  shows "old \<notin> set (splice_list old new xs)"
  using assms by (simp add: splice_list_no_adjacent)

text \<open>
  What does hold of the repair. On a list in which the old IPv4 address has no neighbour
  equal to it (so on every list without duplicates) a second repair changes nothing.
\<close>

lemma repair_list_idem:
  assumes "no_adjacent (Address oldnode) xs"
  shows "repair_list oldnode newnode (repair_list oldnode newnode xs) =
           repair_list oldnode newnode xs"
proof (cases "Address oldnode \<noteq> Address newnode")
  case True
  let ?ys = "splice_list (Address oldnode) (Address newnode) xs"
  have gone: "Address oldnode \<notin> set ?ys"
    using assms True by (rule splice_list_removes)
  then have "repair_list oldnode newnode xs = ?ys"
    using True by (simp add: repair_list_def splice_list_absent Let_def)
  moreover have "repair_list oldnode newnode ?ys = ?ys"
    using gone True by (simp add: repair_list_def splice_list_absent Let_def)
  ultimately show ?thesis by simp
next
  case False
  then show ?thesis
    using assms by (simp add: repair_list_def splice_list_idem Let_def)
qed

text \<open>
  A change of the IPv4 address alone, on a list without duplicates that holds the old
  address and not the new one: the old address goes, the new one is there once.
\<close>

lemma repair_list_v4:
  assumes "Address oldnode \<noteq> Address newnode" and "Address6 oldnode = Address6 newnode"
    and "distinct xs" and "Address oldnode \<in> set xs" and "Address newnode \<notin> set xs"
  shows "repair_list oldnode newnode xs =
           filter (\<lambda>x. x \<noteq> Address oldnode) xs @ [Address newnode]"
    and "count_list (repair_list oldnode newnode xs) (Address newnode) = 1"
    and "Address oldnode \<notin> set (repair_list oldnode newnode xs)"
proof -
  have "count_list xs (Address oldnode) = 1"
    using assms(3,4) by (simp add: distinct_count_one)
  then show eq: "repair_list oldnode newnode xs =
           filter (\<lambda>x. x \<noteq> Address oldnode) xs @ [Address newnode]"
    using assms
    by (simp add: repair_list_def splice_list_no_adjacent no_adjacent_distinct Let_def)
  show "count_list (repair_list oldnode newnode xs) (Address newnode) = 1"
    using assms(5) by (simp add: eq count_list_0_iff)
  show "Address oldnode \<notin> set (repair_list oldnode newnode xs)"
    using assms(1) by (simp add: eq)
qed

text \<open>
  A change of the IPv6 address alone: the entries cut out are those equal to the IPv4
  address, which has not changed; the old IPv6 address stays wherever it is.
\<close>

lemma repair_list_v6:
  assumes "Address oldnode = Address newnode" and "Address6 oldnode \<noteq> Address6 newnode"
    and "distinct xs"
  shows "repair_list oldnode newnode xs =
           filter (\<lambda>x. x \<noteq> Address oldnode) xs
           @ replicate (count_list xs (Address oldnode)) (Address6 newnode)"
  using assms
  by (simp add: repair_list_def splice_list_no_adjacent no_adjacent_distinct Let_def)

text \<open>
  C3. The repair should handle the two address fields independently, the IPv6 branch
  replacing the previous IPv6 address. The second loop of \<^verbatim>\<open>updateRelay\<close> compares the
  entries with \<^verbatim>\<open>oldnode.Address\<close>: when the node \<^verbatim>\<open>10.0.0.2\<close> / \<^verbatim>\<open>fd00::2\<close> changes its IPv6
  address to \<^verbatim>\<open>fd00::9\<close>, the relay's list loses the IPv4 address, which the node still
  has, and keeps the old IPv6 address.
\<close>

theorem relay_repair_keys_on_v4:
  "updateRelay env0 node1 (node1\<lparr>Address6 := ''fd00::9''\<rparr>) =
     [Call_UpdateNode
        (Some (relay1\<lparr>RelayAddrs := [''fd00::2'', ''10.0.0.3'', ''fd00::9'']\<rparr>))
        (Some (relay1\<lparr>RelayAddrs := [''fd00::2'', ''10.0.0.3'', ''fd00::9'']\<rparr>))]"
  by (simp add: updateRelay_def updateRelay_addrs_def splice_range_def splice_step_def
      slice_to_def slice_from_def go_append_def elems_def write_at_def env0_def node1_def
      relay1_def Node0_def upt_rec Let_def)

text \<open>
  C4. Applying the repair twice should give what applying it once gives. On a list that
  holds the old address twice in a row the first run replaces the first of the two and
  passes over the second, which has moved to the index just visited; the second run
  replaces that one: \<^verbatim>\<open>[old, old]\<close> becomes \<^verbatim>\<open>[old, new]\<close>, then \<^verbatim>\<open>[new, new]\<close>.
\<close>

theorem relay_repair_not_idempotent:
  "updateRelay_addrs node1 (node1\<lparr>Address := ''10.0.0.9''\<rparr>)
     ([[''10.0.0.2'', ''10.0.0.2'']], \<lparr>s_arr = 0, s_off = 0, s_len = 2, s_cap = 2\<rparr>) =
     Some ([[''10.0.0.2'', ''10.0.0.9'']], \<lparr>s_arr = 0, s_off = 0, s_len = 2, s_cap = 2\<rparr>)
   \<and> updateRelay_addrs node1 (node1\<lparr>Address := ''10.0.0.9''\<rparr>)
     ([[''10.0.0.2'', ''10.0.0.9'']], \<lparr>s_arr = 0, s_off = 0, s_len = 2, s_cap = 2\<rparr>) =
     Some ([[''10.0.0.9'', ''10.0.0.9'']], \<lparr>s_arr = 0, s_off = 0, s_len = 2, s_cap = 2\<rparr>)"
  by (simp add: updateRelay_addrs_def splice_range_def splice_step_def
      slice_to_def slice_from_def go_append_def elems_def write_at_def node1_def
      Node0_def upt_rec Let_def)

section \<open>Theorems: the goroutines of the relay loop\<close>

text \<open>
  When every goroutine of the relay loop runs after the loop, each publishes the update of
  the last relayed node; when each runs within its own iteration, each publishes its own.
\<close>

lemma relay_updates_after_loop:
  assumes "\<forall>k. length ns - 1 \<le> go_reads e k"
  shows "relay_updates e ns = concat (map (\<lambda>n. runUpdates e (last ns) False) ns)"
proof (cases "ns = []")
  case True
  then show ?thesis by (simp add: relay_updates_def)
next
  case False
  have "min (max k (go_reads e k)) (length ns - 1) = length ns - 1" for k
    using spec [OF assms, of k] by (auto simp add: min_def max_def)
  then have "relay_updates e ns =
               concat (map (\<lambda>k. runUpdates e (ns ! (length ns - 1)) False) [0..<length ns])"
    by (simp add: relay_updates_def)
  also have "\<dots> = concat (replicate (length ns) (runUpdates e (last ns) False))"
    using False by (simp add: last_conv_nth map_replicate_const)
  also have "\<dots> = concat (map (\<lambda>n. runUpdates e (last ns) False) ns)"
    by (simp add: map_replicate_const)
  finally show ?thesis .
qed

lemma relay_updates_in_turn:
  assumes "\<forall>k. go_reads e k = k"
  shows "relay_updates e ns = concat (map (\<lambda>n. runUpdates e n False) ns)"
proof -
  have "map (\<lambda>k. runUpdates e (ns ! min (max k (go_reads e k)) (length ns - 1)) False)
          [0..<length ns] =
        map (\<lambda>k. runUpdates e (ns ! k) False) [0..<length ns]"
    using assms by (auto simp add: min_def)
  also have "\<dots> = map (\<lambda>n. runUpdates e n False) (map ((!) ns) [0..<length ns])"
    by simp
  also have "\<dots> = map (\<lambda>n. runUpdates e n False) ns"
    by (simp only: map_nth)
  finally show ?thesis
    by (simp add: relay_updates_def)
qed

end
